theory Spec2Isabelle
  imports Complex_Main "HOL-Library.Word"
begin

unbundle bit_operations_syntax

section \<open>Identifiers (trace/trace.go)\<close>

text \<open>
  \<^verbatim>\<open>type TraceID [16]byte\<close> and \<^verbatim>\<open>type SpanID [8]byte\<close> are byte arrays of fixed
  length. They are modelled as byte lists; the length (16 or 8) is the type invariant and
  appears as a hypothesis wherever a theorem ranges over all identifiers.
\<close>

type_synonym byte = "8 word"

definition hextable :: string where
  "hextable = ''0123456789abcdef''"

text \<open>Go's \<^verbatim>\<open>hex.EncodeToString\<close>: two lower-case digits per byte, high nibble first.\<close>

fun EncodeToString :: "byte list \<Rightarrow> string" where
  "EncodeToString [] = []"
| "EncodeToString (b # bs) =
     hextable ! unat (drop_bit 4 b) # hextable ! unat (b AND 15) # EncodeToString bs"

definition TraceID_String :: "byte list \<Rightarrow> string" where
  "TraceID_String t = EncodeToString t"

definition SpanID_String :: "byte list \<Rightarrow> string" where
  "SpanID_String s = EncodeToString s"

text \<open>\<^verbatim>\<open>t != TraceID{}\<close>: the identifier differs from the all-zero array.\<close>

definition TraceID_IsValid :: "byte list \<Rightarrow> bool" where
  "TraceID_IsValid t = (t \<noteq> replicate 16 0)"

definition SpanID_IsValid :: "byte list \<Rightarrow> bool" where
  "SpanID_IsValid s = (s \<noteq> replicate 8 0)"

section \<open>W3C trace context (trace/context.go)\<close>

datatype error =
    ErrTracerClosed | ErrInvalidTraceID | ErrInvalidSpanID
  | ErrInvalidContext | ErrSamplerRejected | ErrExporterFailed

record TraceContext =
  TraceID :: "byte list"
  SpanID :: "byte list"
  TraceFlags :: byte
  TraceState :: string

subsection \<open>The standard-library functions the parser calls\<close>

text \<open>
  Go strings are byte sequences, here \<open>char list\<close>. \<^verbatim>\<open>strings.ToLower\<close> maps the ASCII
  letters \<^verbatim>\<open>A\<close>..\<^verbatim>\<open>Z\<close> to \<^verbatim>\<open>a\<close>..\<^verbatim>\<open>z\<close>. On a string with bytes outside ASCII
  Go lower-cases by code point; no code point outside ASCII lower-cases into
  \<^verbatim>\<open>[0-9a-f-]\<close> or into white space and white space is left as it is, so keeping those
  bytes unchanged gives the same parse result.
\<close>

definition toLower_byte :: "char \<Rightarrow> char" where
  "toLower_byte c =
     (let n = (of_char c :: nat) in if 65 \<le> n \<and> n \<le> 90 then char_of (n + 32) else c)"

definition ToLower :: "string \<Rightarrow> string" where
  "ToLower s = map toLower_byte s"

text \<open>
  \<^verbatim>\<open>strings.TrimSpace\<close> removes leading and trailing white space as
  \<^verbatim>\<open>unicode.IsSpace\<close> defines it: the six ASCII characters tab, line feed, vertical tab,
  form feed, carriage return and space, and the code points U+0085, U+00A0, U+1680,
  U+2000..U+200A, U+2028, U+2029, U+202F, U+205F, U+3000, listed here by their UTF-8
  encodings.
\<close>

definition space_encodings :: "string list" where
  "space_encodings =
     [[CHR 0x09], [CHR 0x0A], [CHR 0x0B], [CHR 0x0C], [CHR 0x0D], [CHR 0x20],
      [CHR 0xC2, CHR 0x85], [CHR 0xC2, CHR 0xA0], [CHR 0xE1, CHR 0x9A, CHR 0x80],
      [CHR 0xE2, CHR 0x80, CHR 0x80], [CHR 0xE2, CHR 0x80, CHR 0x81],
      [CHR 0xE2, CHR 0x80, CHR 0x82], [CHR 0xE2, CHR 0x80, CHR 0x83],
      [CHR 0xE2, CHR 0x80, CHR 0x84], [CHR 0xE2, CHR 0x80, CHR 0x85],
      [CHR 0xE2, CHR 0x80, CHR 0x86], [CHR 0xE2, CHR 0x80, CHR 0x87],
      [CHR 0xE2, CHR 0x80, CHR 0x88], [CHR 0xE2, CHR 0x80, CHR 0x89],
      [CHR 0xE2, CHR 0x80, CHR 0x8A],
      [CHR 0xE2, CHR 0x80, CHR 0xA8], [CHR 0xE2, CHR 0x80, CHR 0xA9],
      [CHR 0xE2, CHR 0x80, CHR 0xAF], [CHR 0xE2, CHR 0x81, CHR 0x9F],
      [CHR 0xE3, CHR 0x80, CHR 0x80]]"

definition leading :: "string list \<Rightarrow> string \<Rightarrow> nat" where
  "leading encs s =
     (case filter (\<lambda>w. take (length w) s = w) encs of [] \<Rightarrow> 0 | w # _ \<Rightarrow> length w)"

fun trim_prefix :: "string list \<Rightarrow> string \<Rightarrow> string" where
  "trim_prefix encs [] = []"
| "trim_prefix encs (c # s) =
     (if leading encs (c # s) = 0 then c # s
      else trim_prefix encs (drop (leading encs (c # s) - 1) s))"

definition TrimSpace :: "string \<Rightarrow> string" where
  "TrimSpace s =
     rev (trim_prefix (map rev space_encodings) (rev (trim_prefix space_encodings s)))"

text \<open>
  \<^verbatim>\<open>hex.DecodeString\<close>: digits of either case, two per byte; an odd length or a
  character that is no hex digit is an error (\<open>None\<close>; the caller only tests
  \<^verbatim>\<open>err != nil\<close>).
\<close>

definition fromHexChar :: "char \<Rightarrow> byte option" where
  "fromHexChar c =
     (let n = (of_char c :: nat) in
      if 48 \<le> n \<and> n \<le> 57 then Some (of_nat (n - 48))
      else if 97 \<le> n \<and> n \<le> 102 then Some (of_nat (n - 97 + 10))
      else if 65 \<le> n \<and> n \<le> 70 then Some (of_nat (n - 65 + 10))
      else None)"

fun DecodeString :: "string \<Rightarrow> byte list option" where
  "DecodeString [] = Some []"
| "DecodeString [p] = None"
| "DecodeString (p # q # s) =
     (case fromHexChar p of None \<Rightarrow> None
      | Some a \<Rightarrow>
         (case fromHexChar q of None \<Rightarrow> None
          | Some b \<Rightarrow>
             (case DecodeString s of None \<Rightarrow> None
              | Some bs \<Rightarrow> Some ((push_bit 4 a OR b) # bs))))"

text \<open>
  The compiled pattern
  \<^verbatim>\<open>^([0-9a-f]{2})-([0-9a-f]{32})-([0-9a-f]{16})-([0-9a-f]{2})$\<close>
  matches exactly the strings of 55 bytes with a dash at offsets 2, 35 and 52 and
  lower-case hex digits elsewhere; \<^verbatim>\<open>FindStringSubmatch\<close> returns the four groups.
\<close>

definition is_lower_hex :: "char \<Rightarrow> bool" where
  "is_lower_hex c = (c \<in> set hextable)"

definition traceparentRegex :: "string \<Rightarrow> (string \<times> string \<times> string \<times> string) option" where
  "traceparentRegex s =
     (if length s = 55
         \<and> list_all is_lower_hex (take 2 s) \<and> s ! 2 = CHR ''-''
         \<and> list_all is_lower_hex (take 32 (drop 3 s)) \<and> s ! 35 = CHR ''-''
         \<and> list_all is_lower_hex (take 16 (drop 36 s)) \<and> s ! 52 = CHR ''-''
         \<and> list_all is_lower_hex (drop 53 s)
      then Some (take 2 s, take 32 (drop 3 s), take 16 (drop 36 s), drop 53 s)
      else None)"

text \<open>\<^verbatim>\<open>copy(dst[:], src)\<close> into a zeroed array of \<open>n\<close> bytes.\<close>

definition copy_into :: "nat \<Rightarrow> byte list \<Rightarrow> byte list" where
  "copy_into n src = take n src @ replicate (n - length src) 0"

subsection \<open>ParseW3CTraceparent and FormatW3CTraceparent\<close>

definition ParseW3CTraceparent :: "string \<Rightarrow> error + TraceContext" where
  "ParseW3CTraceparent header =
     (case traceparentRegex (TrimSpace (ToLower header)) of
        None \<Rightarrow> Inl ErrInvalidContext
      | Some (version, m2, m3, m4) \<Rightarrow>
          if version \<noteq> ''00'' then Inl ErrInvalidContext
          else (case DecodeString m2 of
             None \<Rightarrow> Inl ErrInvalidTraceID
           | Some traceIDBytes \<Rightarrow>
               if length traceIDBytes \<noteq> 16 then Inl ErrInvalidTraceID
               else (case DecodeString m3 of
                  None \<Rightarrow> Inl ErrInvalidSpanID
                | Some spanIDBytes \<Rightarrow>
                    if length spanIDBytes \<noteq> 8 then Inl ErrInvalidSpanID
                    else (case DecodeString m4 of
                       None \<Rightarrow> Inl ErrInvalidContext
                     | Some flags \<Rightarrow>
                         if length flags \<noteq> 1 then Inl ErrInvalidContext
                         else Inr \<lparr>TraceID = copy_into 16 traceIDBytes,
                                   SpanID = copy_into 8 spanIDBytes,
                                   TraceFlags = flags ! 0,
                                   TraceState = []\<rparr>))))"

text \<open>\<^verbatim>\<open>fmt.Sprintf("%02x", b)\<close> for a byte: two lower-case hex digits.\<close>

definition Sprintf_02x :: "byte \<Rightarrow> string" where
  "Sprintf_02x b = [hextable ! unat (drop_bit 4 b), hextable ! unat (b AND 15)]"

definition FormatW3CTraceparent :: "TraceContext \<Rightarrow> string" where
  "FormatW3CTraceparent tc =
     ''00-'' @ TraceID_String (TraceID tc) @ ''-'' @ SpanID_String (SpanID tc)
       @ ''-'' @ Sprintf_02x (TraceFlags tc)"

definition IsSampled :: "TraceContext \<Rightarrow> bool" where
  "IsSampled tc = (TraceFlags tc AND 1 \<noteq> 0)"

definition SetSampled :: "TraceContext \<Rightarrow> bool \<Rightarrow> TraceContext" where
  "SetSampled tc sampled =
     (if sampled then tc\<lparr>TraceFlags := TraceFlags tc OR 1\<rparr>
      else tc\<lparr>TraceFlags := TraceFlags tc AND NOT 1\<rparr>)"

section \<open>Propagation context (trace/context.go) and the W3C propagator (logs/context.go)\<close>

text \<open>
  A \<^verbatim>\<open>context.Context\<close> is read through two keys only: \<^verbatim>\<open>spanContextKey\<close> holds a
  \<^verbatim>\<open>*Span\<close> (an address into the span heap below) and \<^verbatim>\<open>traceContextKey\<close> a
  \<^verbatim>\<open>*TraceContext\<close> that is never written after it is stored, kept here by value.
  A \<^verbatim>\<open>Carrier\<close> is read with \<^verbatim>\<open>Get\<close>, which gives the empty string for a missing key.
\<close>

record Context =
  ctx_span :: "nat option"
  ctx_tc :: "TraceContext option"

type_synonym Carrier = "string \<Rightarrow> string"

definition W3CTraceparentHeader :: string where
  "W3CTraceparentHeader = ''traceparent''"

definition W3CTracestateHeader :: string where
  "W3CTracestateHeader = ''tracestate''"

definition ContextWithSpan :: "Context \<Rightarrow> nat \<Rightarrow> Context" where
  "ContextWithSpan ctx sp = ctx\<lparr>ctx_span := Some sp\<rparr>"

definition SpanFromContext :: "Context \<Rightarrow> nat option" where
  "SpanFromContext ctx = ctx_span ctx"

definition ContextWithTraceContext :: "Context \<Rightarrow> TraceContext \<Rightarrow> Context" where
  "ContextWithTraceContext ctx tc = ctx\<lparr>ctx_tc := Some tc\<rparr>"

definition TraceContextFromContext :: "Context \<Rightarrow> TraceContext option" where
  "TraceContextFromContext ctx = ctx_tc ctx"

definition W3CPropagator_Extract :: "Context \<Rightarrow> Carrier \<Rightarrow> Context" where
  "W3CPropagator_Extract ctx carrier =
     (let traceparent = carrier W3CTraceparentHeader in
      if traceparent = [] then ctx
      else (case ParseW3CTraceparent traceparent of
              Inl err \<Rightarrow> ctx
            | Inr tc \<Rightarrow>
                ContextWithTraceContext ctx (tc\<lparr>TraceState := carrier W3CTracestateHeader\<rparr>)))"

text \<open>
  The parse failures as the specification words them: after lower-casing and trimming,
  the header does not match the grammar, or its version field is not \<^verbatim>\<open>00\<close>.
\<close>

definition traceparent_rejected :: "string \<Rightarrow> bool" where
  "traceparent_rejected h =
     (case traceparentRegex (TrimSpace (ToLower h)) of
        None \<Rightarrow> True
      | Some (version, m2, m3, m4) \<Rightarrow> version \<noteq> ''00'')"

section \<open>Samplers (unnamed/part_004)\<close>

record SamplingParams =
  p_TraceID :: "byte list"
  p_Name :: string
  p_ParentID :: "byte list"

text \<open>
  The ratio is a \<^verbatim>\<open>float64\<close> in the source and a real number here: the product
  \<^verbatim>\<open>ratio * 100\<close> or \<^verbatim>\<open>ratio * 0xFFFFFFFF\<close> is taken exactly, without the rounding
  of the floating-point multiplication. The conversion \<^verbatim>\<open>uint32(x)\<close> of a
  non-negative value in range truncates.
\<close>

definition clamp01 :: "real \<Rightarrow> real" where
  "clamp01 ratio =
     (let ratio = (if ratio < 0 then 0 else ratio) in if ratio > 1 then 1 else ratio)"

definition uint32_of_real :: "real \<Rightarrow> 32 word" where
  "uint32_of_real x = word_of_nat (nat \<lfloor>x\<rfloor>)"

record RatioSampler =
  r_ratio :: real
  r_threshold :: "32 word"
  r_counter :: "64 word"


text \<open>
  \<^verbatim>\<open>count := s.counter.Add(1)\<close> returns the incremented 64-bit counter;
  \<^verbatim>\<open>uint32(count%100)\<close> keeps the low 32 bits of the remainder.
\<close>

definition RatioSampler_ShouldSample ::
  "RatioSampler \<Rightarrow> SamplingParams \<Rightarrow> bool \<times> RatioSampler" where
  "RatioSampler_ShouldSample s params =
     (let count = r_counter s + 1 in
      ((ucast (count mod 100) :: 32 word) < r_threshold s, s\<lparr>r_counter := count\<rparr>))"

record TraceIDRatioSampler =
  t_threshold :: "32 word"

definition TraceIDRatioSample :: "real \<Rightarrow> TraceIDRatioSampler" where
  "TraceIDRatioSample ratio = \<lparr>t_threshold = uint32_of_real (clamp01 ratio * 4294967295)\<rparr>"

text \<open>
  \<^verbatim>\<open>hash/fnv\<close>'s 32-bit FNV-1a: start from the offset basis 2166136261; for each byte,
  exclusive-or it into the hash, then multiply by the prime 16777619 modulo \<open>2^32\<close>.
\<close>

definition fnv_offset32 :: "32 word" where
  "fnv_offset32 = 2166136261"

definition fnv_prime32 :: "32 word" where
  "fnv_prime32 = 16777619"

fun fnv32a_Write :: "32 word \<Rightarrow> byte list \<Rightarrow> 32 word" where
  "fnv32a_Write h [] = h"
| "fnv32a_Write h (c # data) = fnv32a_Write ((h XOR ucast c) * fnv_prime32) data"

definition fnv32a :: "byte list \<Rightarrow> 32 word" where
  "fnv32a data = fnv32a_Write fnv_offset32 data"

definition TraceIDRatioSampler_ShouldSample ::
  "TraceIDRatioSampler \<Rightarrow> SamplingParams \<Rightarrow> bool \<times> TraceIDRatioSampler" where
  "TraceIDRatioSampler_ShouldSample s params = (fnv32a (p_TraceID params) < t_threshold s, s)"

text \<open>
  The \<^verbatim>\<open>Sampler\<close> interface with its five implementations. A call returns the decision
  and the sampler after the call, since \<^verbatim>\<open>RatioSampler\<close> advances its counter.
\<close>

datatype Sampler =
    AlwaysSampler
  | NeverSampler
  | Ratio RatioSampler
  | TraceIDRatio TraceIDRatioSampler
  | ParentBasedSampler Sampler

fun ShouldSample :: "Sampler \<Rightarrow> SamplingParams \<Rightarrow> bool \<times> Sampler" where
  "ShouldSample AlwaysSampler params = (True, AlwaysSampler)"
| "ShouldSample NeverSampler params = (False, NeverSampler)"
| "ShouldSample (Ratio s) params =
     (case RatioSampler_ShouldSample s params of (d, s') \<Rightarrow> (d, Ratio s'))"
| "ShouldSample (TraceIDRatio s) params =
     (case TraceIDRatioSampler_ShouldSample s params of (d, s') \<Rightarrow> (d, TraceIDRatio s'))"
| "ShouldSample (ParentBasedSampler rt) params =
     (if SpanID_IsValid (p_ParentID params) then (True, ParentBasedSampler rt)
      else (case ShouldSample rt params of (d, rt') \<Rightarrow> (d, ParentBasedSampler rt')))"

text \<open>The sampler after a sequence of calls, one per element of the list.\<close>

fun Sampler_calls :: "Sampler \<Rightarrow> SamplingParams list \<Rightarrow> Sampler" where
  "Sampler_calls s [] = s"
| "Sampler_calls s (q # qs) = Sampler_calls (snd (ShouldSample s q)) qs"

section \<open>Spans (unnamed/part_010)\<close>

datatype SpanStatus = StatusUnset | StatusOK | StatusError

text \<open>Attribute values have the type \<^verbatim>\<open>any\<close>; three representative cases are kept.\<close>

datatype any = AnyString string | AnyInt int | AnyBool bool

record Attribute =
  Key :: string
  Value :: any

text \<open>A \<^verbatim>\<open>time.Time\<close> is a number of ticks; the zero time is \<open>0\<close>.\<close>

type_synonym Time = nat

record Event =
  Name :: string
  Timestamp :: Time
  Attributes :: "Attribute list"

text \<open>
  The field \<open>tracer\<close> tells whether the \<^verbatim>\<open>*Tracer\<close> pointer is set: the model has one
  tracer. The atomic flag \<open>ended\<close> is a plain boolean and every method call is one
  atomic step; the mutex is not modelled.
\<close>

record Span =
  tracer :: bool
  traceID :: "byte list"
  spanID :: "byte list"
  parentID :: "byte list"
  name :: string
  startTime :: Time
  endTime :: Time
  status :: SpanStatus
  statusMsg :: string
  attributes :: "Attribute list"
  events :: "Event list"
  sampled :: bool
  noop :: bool
  ended :: bool

text \<open>The zero value \<^verbatim>\<open>Span{}\<close>.\<close>

definition Span_zero :: Span where
  "Span_zero =
     \<lparr>tracer = False, traceID = replicate 16 0, spanID = replicate 8 0,
      parentID = replicate 8 0, name = [], startTime = 0, endTime = 0,
      status = StatusUnset, statusMsg = [], attributes = [], events = [],
      sampled = False, noop = False, ended = False\<rparr>"

definition reset :: "Span \<Rightarrow> Span" where
  "reset s =
     s\<lparr>tracer := False, traceID := replicate 16 0, spanID := replicate 8 0,
       parentID := replicate 8 0, name := [], startTime := 0, endTime := 0,
       status := StatusUnset, statusMsg := [], attributes := [], events := [],
       sampled := False, noop := False, ended := False\<rparr>"

datatype SpanOption = WithAttributes "Attribute list" | WithStartTime Time

fun SpanOption_apply :: "SpanOption \<Rightarrow> Span \<Rightarrow> Span" where
  "SpanOption_apply (WithAttributes attrs) s = s\<lparr>attributes := attributes s @ attrs\<rparr>"
| "SpanOption_apply (WithStartTime t) s = s\<lparr>startTime := t\<rparr>"

section \<open>The tracer, its pool and its export pipeline (trace/trace.go)\<close>

text \<open>
  Spans are shared by pointer between the caller, the context, the pool and the export
  queue, so they live in a heap: a span pointer is an address, \<open>heap\<close> maps addresses
  to spans and \<open>nextAddr\<close> is the first address never allocated. The state holds the
  heap, the fields of the one \<^verbatim>\<open>Tracer\<close> and what its exporter has received: each
  \<^verbatim>\<open>Export(span)\<close> appends the address and the span's content at that moment to
  \<open>exporter_log\<close>.

  \<^verbatim>\<open>sync.Pool\<close> is a free list: \<^verbatim>\<open>Get\<close> takes the last span put back, or calls
  \<^verbatim>\<open>New\<close> when the list is empty. \<open>asyncCh\<close> is \<open>None\<close> for a nil channel, else
  the queued spans, oldest first.
\<close>

record State =
  heap :: "nat \<Rightarrow> Span"
  nextAddr :: nat
  opts_Sampler :: Sampler
  opts_AsyncBufferSize :: nat
  spanPool :: "nat list"
  tracer_closed :: bool
  asyncCh :: "nat list option"
  exporter_log :: "(nat \<times> Span) list"

record Options =
  o_Sampler :: "Sampler option"
  o_AsyncExport :: bool
  o_AsyncBufferSize :: nat

definition New :: "Options \<Rightarrow> State" where
  "New opts =
     \<lparr>heap = (\<lambda>_. Span_zero), nextAddr = 0,
      opts_Sampler = (case o_Sampler opts of None \<Rightarrow> AlwaysSampler | Some s \<Rightarrow> s),
      opts_AsyncBufferSize =
        (if o_AsyncBufferSize opts = 0 then 1024 else o_AsyncBufferSize opts),
      spanPool = [], tracer_closed = False,
      asyncCh = (if o_AsyncExport opts then Some [] else None),
      exporter_log = []\<rparr>"

definition upd :: "nat \<Rightarrow> (Span \<Rightarrow> Span) \<Rightarrow> State \<Rightarrow> State" where
  "upd a f st = st\<lparr>heap := (heap st)(a := f (heap st a))\<rparr>"

definition spanPool_Get :: "State \<Rightarrow> nat \<times> State" where
  "spanPool_Get st =
     (case spanPool st of
        [] \<Rightarrow> (nextAddr st,
               st\<lparr>heap := (heap st)(nextAddr st := Span_zero), nextAddr := Suc (nextAddr st)\<rparr>)
      | a # rest \<Rightarrow> (a, st\<lparr>spanPool := rest\<rparr>))"

definition getSpan :: "State \<Rightarrow> nat \<times> State" where
  "getSpan st = (case spanPool_Get st of (a, st1) \<Rightarrow> (a, upd a reset st1))"

definition releaseSpan :: "nat \<Rightarrow> State \<Rightarrow> State" where
  "releaseSpan a st = (let st1 = upd a reset st in st1\<lparr>spanPool := a # spanPool st1\<rparr>)"

definition Exporter_Export :: "nat \<Rightarrow> State \<Rightarrow> State" where
  "Exporter_Export a st = st\<lparr>exporter_log := exporter_log st @ [(a, heap st a)]\<rparr>"

text \<open>
  The non-blocking send of \<^verbatim>\<open>exportSpan\<close> succeeds when the buffered channel has room.
\<close>

definition exportSpan :: "nat \<Rightarrow> State \<Rightarrow> State" where
  "exportSpan a st =
     (case (if tracer_closed st then None else asyncCh st) of
        Some q \<Rightarrow>
          if length q < opts_AsyncBufferSize st then st\<lparr>asyncCh := Some (q @ [a])\<rparr>
          else releaseSpan a (Exporter_Export a st)
      | None \<Rightarrow> releaseSpan a (Exporter_Export a st))"

text \<open>One iteration of the worker's \<^verbatim>\<open>for span := range t.asyncCh\<close>, and the whole loop
  on the spans queued when the channel is closed.\<close>

definition asyncWorker_step :: "State \<Rightarrow> State" where
  "asyncWorker_step st =
     (case asyncCh st of
        Some (a # q) \<Rightarrow> releaseSpan a (Exporter_Export a (st\<lparr>asyncCh := Some q\<rparr>))
      | _ \<Rightarrow> st)"

fun asyncWorker_drain :: "nat list \<Rightarrow> State \<Rightarrow> State" where
  "asyncWorker_drain [] st = st"
| "asyncWorker_drain (a # q) st =
     asyncWorker_drain q (releaseSpan a (Exporter_Export a (st\<lparr>asyncCh := Some q\<rparr>)))"

definition Close :: "State \<Rightarrow> State" where
  "Close st =
     (if tracer_closed st then st
      else (let st1 = st\<lparr>tracer_closed := True\<rparr> in
            case asyncCh st1 of None \<Rightarrow> st1 | Some q \<Rightarrow> asyncWorker_drain q st1))"

subsection \<open>Span methods\<close>

definition SetAttribute :: "string \<Rightarrow> any \<Rightarrow> nat \<Rightarrow> State \<Rightarrow> State" where
  "SetAttribute key val a st =
     (if noop (heap st a) \<or> ended (heap st a) then st
      else upd a (\<lambda>s. s\<lparr>attributes := attributes s @ [\<lparr>Key = key, Value = val\<rparr>]\<rparr>) st)"

definition SetAttributes :: "Attribute list \<Rightarrow> nat \<Rightarrow> State \<Rightarrow> State" where
  "SetAttributes attrs a st =
     (if noop (heap st a) \<or> ended (heap st a) then st
      else upd a (\<lambda>s. s\<lparr>attributes := attributes s @ attrs\<rparr>) st)"

definition AddEvent :: "string \<Rightarrow> Attribute list \<Rightarrow> Time \<Rightarrow> nat \<Rightarrow> State \<Rightarrow> State" where
  "AddEvent nm attrs now a st =
     (if noop (heap st a) \<or> ended (heap st a) then st
      else upd a (\<lambda>s. s\<lparr>events := events s @
                          [\<lparr>Name = nm, Timestamp = now, Attributes = attrs\<rparr>]\<rparr>) st)"

definition SetStatus :: "SpanStatus \<Rightarrow> string \<Rightarrow> nat \<Rightarrow> State \<Rightarrow> State" where
  "SetStatus stat msg a st =
     (if noop (heap st a) \<or> ended (heap st a) then st
      else upd a (\<lambda>s. s\<lparr>status := stat, statusMsg := msg\<rparr>) st)"

text \<open>An \<^verbatim>\<open>error\<close> value is \<open>None\<close> for nil, else the text \<^verbatim>\<open>err.Error()\<close> returns.\<close>

definition RecordError :: "string option \<Rightarrow> Time \<Rightarrow> nat \<Rightarrow> State \<Rightarrow> State" where
  "RecordError err now a st =
     (case err of
        None \<Rightarrow> st
      | Some msg \<Rightarrow>
          if noop (heap st a) \<or> ended (heap st a) then st
          else SetStatus StatusError msg a
                 (AddEvent ''exception''
                    [\<lparr>Key = ''exception.message'', Value = AnyString msg\<rparr>] now a st))"

text \<open>\<^verbatim>\<open>End\<close>: the compare-and-swap on \<open>ended\<close> succeeds when the flag is false.\<close>

definition End :: "Time \<Rightarrow> nat \<Rightarrow> State \<Rightarrow> State" where
  "End now a st =
     (if noop (heap st a) \<or> ended (heap st a) then st
      else (let st1 = upd a (\<lambda>s. s\<lparr>ended := True, endTime := now\<rparr>) st in
            if \<not> sampled (heap st1 a) \<or> \<not> tracer (heap st1 a) then st1
            else exportSpan a st1))"

subsection \<open>Tracer.Start\<close>

text \<open>
  The bytes \<^verbatim>\<open>crypto/rand\<close> delivers to \<^verbatim>\<open>generateTraceID\<close> and \<^verbatim>\<open>generateSpanID\<close>
  and the clock reading are inputs: \<open>rndT\<close>, \<open>rndS\<close>, \<open>now\<close>. The result is the
  returned context, the address of the returned span and the new state.
\<close>

definition parent_ids :: "State \<Rightarrow> nat option \<Rightarrow> (byte list \<times> byte list) option" where
  "parent_ids st parent =
     (case parent of
        None \<Rightarrow> None
      | Some p \<Rightarrow> if TraceID_IsValid (traceID (heap st p))
                  then Some (traceID (heap st p), spanID (heap st p)) else None)"

definition tc_ids :: "TraceContext option \<Rightarrow> (byte list \<times> byte list) option" where
  "tc_ids tc =
     (case tc of
        None \<Rightarrow> None
      | Some c \<Rightarrow> if TraceID_IsValid (TraceID c) then Some (TraceID c, SpanID c) else None)"

definition Start ::
  "Context \<Rightarrow> string \<Rightarrow> SpanOption list \<Rightarrow> byte list \<Rightarrow> byte list \<Rightarrow> Time \<Rightarrow> State
     \<Rightarrow> Context \<times> nat \<times> State" where
  "Start ctx nm opts rndT rndS now st =
     (if tracer_closed st
      then (ctx, nextAddr st,
            st\<lparr>heap := (heap st)(nextAddr st := Span_zero\<lparr>noop := True\<rparr>),
               nextAddr := Suc (nextAddr st)\<rparr>)
      else
        (let parent = SpanFromContext ctx;
             tc = TraceContextFromContext ctx
         in case getSpan st of (a, st1) \<Rightarrow>
           (let st2 = upd a (\<lambda>s. s\<lparr>tracer := True, name := nm, startTime := now\<rparr>) st1;
                st3 = (case parent_ids st2 parent of
                         Some (t, p) \<Rightarrow> upd a (\<lambda>s. s\<lparr>traceID := t, parentID := p\<rparr>) st2
                       | None \<Rightarrow>
                          (case tc_ids tc of
                             Some (t, p) \<Rightarrow> upd a (\<lambda>s. s\<lparr>traceID := t, parentID := p\<rparr>) st2
                           | None \<Rightarrow> upd a (\<lambda>s. s\<lparr>traceID := rndT\<rparr>) st2));
                st4 = upd a (\<lambda>s. s\<lparr>spanID := rndS\<rparr>) st3;
                st5 = upd a (fold SpanOption_apply opts) st4
            in case ShouldSample (opts_Sampler st5)
                      \<lparr>p_TraceID = traceID (heap st5 a), p_Name = nm,
                       p_ParentID = parentID (heap st5 a)\<rparr> of
                 (d, smp) \<Rightarrow>
                   (ContextWithSpan ctx a, a,
                    (upd a (\<lambda>s. s\<lparr>sampled := d\<rparr>) st5)\<lparr>opts_Sampler := smp\<rparr>))))"

subsection \<open>Sequences of calls\<close>

text \<open>
  The calls a program can make on the tracer and on span pointers, and one step of the
  background worker. \<open>run\<close> executes a sequence of them; the states it reaches from
  \<open>New opts\<close> are the states of a running program.
\<close>

datatype call =
    CallStart Context string "SpanOption list" "byte list" "byte list" Time
  | CallSetAttribute string any nat
  | CallSetAttributes "Attribute list" nat
  | CallAddEvent string "Attribute list" Time nat
  | CallSetStatus SpanStatus string nat
  | CallRecordError "string option" Time nat
  | CallEnd Time nat
  | CallClose
  | CallWorker

fun exec :: "call \<Rightarrow> State \<Rightarrow> State" where
  "exec (CallStart ctx nm opts rndT rndS now) st = snd (snd (Start ctx nm opts rndT rndS now st))"
| "exec (CallSetAttribute key val a) st = SetAttribute key val a st"
| "exec (CallSetAttributes attrs a) st = SetAttributes attrs a st"
| "exec (CallAddEvent nm attrs now a) st = AddEvent nm attrs now a st"
| "exec (CallSetStatus stat msg a) st = SetStatus stat msg a st"
| "exec (CallRecordError err now a) st = RecordError err now a st"
| "exec (CallEnd now a) st = End now a st"
| "exec CallClose st = Close st"
| "exec CallWorker st = asyncWorker_step st"

fun run :: "call list \<Rightarrow> State \<Rightarrow> State" where
  "run [] st = st"
| "run (c # cs) st = run cs (exec c st)"

text \<open>
  What holds of every reachable state: a span in the pool or never allocated carries no
  trace ID and is neither sampled nor a no-op span; the pool holds no span twice; a
  queued span is ended and not in the pool; the exporter has only seen allocated spans.
\<close>

definition pooled :: "Span \<Rightarrow> bool" where
  "pooled s = (traceID s = replicate 16 0 \<and> \<not> sampled s \<and> \<not> noop s)"

definition queued_ok :: "State \<Rightarrow> nat list \<Rightarrow> bool" where
  "queued_ok st q =
     (distinct q \<and>
      list_all (\<lambda>b. b < nextAddr st \<and> b \<notin> set (spanPool st)
                   \<and> ended (heap st b) \<and> \<not> noop (heap st b)) q)"

definition inv :: "State \<Rightarrow> bool" where
  "inv st =
     (distinct (spanPool st)
      \<and> list_all (\<lambda>b. b < nextAddr st \<and> pooled (heap st b)) (spanPool st)
      \<and> (\<forall>b. nextAddr st \<le> b \<longrightarrow> pooled (heap st b))
      \<and> (case asyncCh st of None \<Rightarrow> True | Some q \<Rightarrow> queued_ok st q)
      \<and> list_all (\<lambda>e. fst e < nextAddr st) (exporter_log st))"

text \<open>A span that is allocated and neither in the pool nor in the queue.\<close>

definition inuse :: "State \<Rightarrow> nat \<Rightarrow> bool" where
  "inuse st a =
     (a < nextAddr st \<and> a \<notin> set (spanPool st)
      \<and> (case asyncCh st of None \<Rightarrow> True | Some q \<Rightarrow> a \<notin> set q))"

text \<open>A span is untouched by a step when its content stays and no export of it is added.\<close>

definition untouched :: "nat \<Rightarrow> State \<Rightarrow> State \<Rightarrow> bool" where
  "untouched a st st' =
     (heap st' a = heap st a \<and> nextAddr st \<le> nextAddr st'
      \<and> (a \<in> fst ` set (exporter_log st') \<longrightarrow> a \<in> fst ` set (exporter_log st)))"

text \<open>The identifiers \<^verbatim>\<open>Start\<close> inherits: from the ambient span, else from the ambient
  trace context, else none.\<close>

definition start_ids ::
  "State \<Rightarrow> Context \<Rightarrow> (byte list \<times> byte list) option" where
  "start_ids st ctx =
     (case parent_ids st (SpanFromContext ctx) of
        Some x \<Rightarrow> Some x
      | None \<Rightarrow> tc_ids (TraceContextFromContext ctx))"

subsection \<open>Concrete inputs for the closed theorems\<close>

definition ex_opts :: Options where
  "ex_opts = \<lparr>o_Sampler = None, o_AsyncExport = False, o_AsyncBufferSize = 0\<rparr>"


definition ex_ctx :: Context where
  "ex_ctx = \<lparr>ctx_span = None, ctx_tc = None\<rparr>"

definition ex_tid :: "byte list" where
  "ex_tid = [0x4b, 0xf9, 0x2f, 0x35, 0x77, 0xb3, 0x4d, 0xa6,
             0xa3, 0xce, 0x92, 0x9d, 0x0e, 0x0e, 0x47, 0x36]"

definition ex_sid :: "byte list" where
  "ex_sid = [0x00, 0xf0, 0x67, 0xaa, 0x0b, 0xa9, 0x02, 0xb7]"


text \<open>A tracer with the default options on which one root span, at address 0, has been
  started at time 5.\<close>

definition ex_started :: State where
  "ex_started = run [CallStart ex_ctx ''root'' [] ex_tid ex_sid 5] (New ex_opts)"




text \<open>\<^verbatim>\<open>Start\<close> on a tracer that has only been closed, and from \<open>ex_child_ctx\<close> on a
  tracer closed after the root span was started.\<close>

definition ex_closed_start :: "Context \<times> nat \<times> State" where
  "ex_closed_start = Start ex_ctx ''op'' [] ex_tid ex_sid 5 (run [CallClose] (New ex_opts))"




section \<open>Hex encoding and the traceparent grammar\<close>

lemma fifteen_mask: "(15::byte) = mask 4"
  by (simp add: mask_eq_exp_minus_1)

lemma nibbles_join: "push_bit 4 (drop_bit 4 b) OR (b AND 15) = (b::byte)"
  unfolding fifteen_mask by (rule bit_eqI) (auto simp: bit_simps)

lemma hi_nibble_bound: "unat (drop_bit 4 (b::byte)) < 16"
proof -
  have "unat (drop_bit 4 b) = unat b div 2 ^ 4"
    by (simp add: drop_bit_eq_div unat_div)
  moreover have "unat b < 2 ^ 8" using unsigned_less [of b] by simp
  ultimately show ?thesis by simp
qed

lemma lo_nibble_bound: "unat ((b::byte) AND 15) < 16"
proof -
  have "unat (b AND 15) = unat b mod 2 ^ 4"
    unfolding fifteen_mask by (simp add: take_bit_eq_mod unat_mod flip: take_bit_eq_mask)
  then show ?thesis by simp
qed

lemma fromHexChar_table:
  "map fromHexChar hextable = map (\<lambda>n. Some (of_nat n)) [0..<16]"
  by code_simp

lemma fromHexChar_hextable:
  assumes "n < 16"
  shows "fromHexChar (hextable ! n) = Some (of_nat n)"
proof -
  have len: "length hextable = 16" by (simp add: hextable_def)
  have "fromHexChar (hextable ! n) = map fromHexChar hextable ! n"
    using assms len by simp
  also have "\<dots> = map (\<lambda>n. Some (of_nat n)) [0..<16] ! n"
    by (simp only: fromHexChar_table)
  also have "\<dots> = Some (of_nat n)"
    using assms by (simp del: upt_Suc)
  finally show ?thesis .
qed

lemma is_lower_hex_hextable: "n < 16 \<Longrightarrow> is_lower_hex (hextable ! n)"
  unfolding is_lower_hex_def by (rule nth_mem) (simp add: hextable_def)

lemma lower_hex_zero: "is_lower_hex CHR ''0''"
  by (simp add: is_lower_hex_def hextable_def)

lemma DecodeString_EncodeToString: "DecodeString (EncodeToString bs) = Some bs"
  by (induction bs)
     (simp_all add: fromHexChar_hextable hi_nibble_bound lo_nibble_bound nibbles_join)

lemma length_EncodeToString: "length (EncodeToString bs) = 2 * length bs"
  by (induction bs) simp_all

lemma lower_hex_EncodeToString: "list_all is_lower_hex (EncodeToString bs)"
  by (induction bs) (simp_all add: is_lower_hex_hextable hi_nibble_bound lo_nibble_bound)

lemma Sprintf_02x_Encode: "Sprintf_02x b = EncodeToString [b]"
  by (simp add: Sprintf_02x_def)

text \<open>Lower-casing and trimming leave a string of hex digits and dashes as it is.\<close>

lemma toLower_byte_id: "is_lower_hex c \<or> c = CHR ''-'' \<Longrightarrow> toLower_byte c = c"
  by (auto simp: is_lower_hex_def hextable_def toLower_byte_def)

lemma ToLower_id: "list_all (\<lambda>c. is_lower_hex c \<or> c = CHR ''-'') s \<Longrightarrow> ToLower s = s"
  unfolding ToLower_def by (induction s) (simp_all add: toLower_byte_id)

lemma leading_0:
  assumes h: "\<forall>w \<in> set encs. w \<noteq> [] \<and> hd w \<noteq> c"
  shows "leading encs (c # s) = 0"
proof -
  have "filter (\<lambda>w. take (length w) (c # s) = w) encs = []"
  proof (rule filter_False, rule ballI)
    fix w assume "w \<in> set encs"
    with h obtain x xs where "w = x # xs" "x \<noteq> c" by (cases w) auto
    then show "\<not> take (length w) (c # s) = w" by simp
  qed
  then show ?thesis by (simp add: leading_def)
qed

lemma space_heads:
  "is_lower_hex c \<Longrightarrow> \<forall>w \<in> set space_encodings. w \<noteq> [] \<and> hd w \<noteq> c"
  by (auto simp: is_lower_hex_def hextable_def space_encodings_def)

lemma space_lasts:
  "is_lower_hex c \<Longrightarrow> \<forall>w \<in> set (map rev space_encodings). w \<noteq> [] \<and> hd w \<noteq> c"
  by (auto simp: is_lower_hex_def hextable_def space_encodings_def)

lemma TrimSpace_id:
  assumes "s \<noteq> []" "is_lower_hex (hd s)" "is_lower_hex (last s)"
  shows "TrimSpace s = s"
proof -
  from assms obtain c t where s: "s = c # t" and c: "is_lower_hex c" by (cases s) auto
  have 1: "trim_prefix space_encodings s = s"
    unfolding s using leading_0 [OF space_heads [OF c]] by simp
  from assms obtain d u where r: "rev s = d # u" and d: "is_lower_hex d"
    by (cases "rev s") (auto simp: last_rev [symmetric] hd_rev)
  have 2: "trim_prefix (map rev space_encodings) (rev s) = rev s"
    unfolding r using leading_0 [OF space_lasts [OF d]] by simp
  show ?thesis by (simp add: TrimSpace_def 1 2)
qed

lemma traceparentRegex_formatted:
  assumes "length A = 32" "length B = 16" "length C = 2"
    and "list_all is_lower_hex A" "list_all is_lower_hex B" "list_all is_lower_hex C"
  shows "traceparentRegex (''00-'' @ A @ ''-'' @ B @ ''-'' @ C) = Some (''00'', A, B, C)"
  using assms by (simp add: traceparentRegex_def nth_append lower_hex_zero)

lemma formatted_shape:
  assumes "list_all is_lower_hex A" "list_all is_lower_hex B" "list_all is_lower_hex C"
    and "C \<noteq> []"
  shows "TrimSpace (ToLower (''00-'' @ A @ ''-'' @ B @ ''-'' @ C))
           = ''00-'' @ A @ ''-'' @ B @ ''-'' @ C"
proof -
  let ?s = "''00-'' @ A @ ''-'' @ B @ ''-'' @ C"
  have weaken: "list_all is_lower_hex xs
      \<Longrightarrow> list_all (\<lambda>c. is_lower_hex c \<or> c = CHR ''-'') xs" for xs
    by (induction xs) simp_all
  have "list_all (\<lambda>c. is_lower_hex c \<or> c = CHR ''-'') ?s"
    using assms by (simp add: weaken lower_hex_zero)
  then have low: "ToLower ?s = ?s" by (rule ToLower_id)
  have "is_lower_hex (last C)" using assms(3,4) by (simp add: list_all_iff)
  then have "TrimSpace ?s = ?s"
    using assms(4) by (intro TrimSpace_id) (simp_all add: lower_hex_zero)
  with low show ?thesis by simp
qed

lemma copy_into_exact: "length bs = n \<Longrightarrow> copy_into n bs = bs"
  by (simp add: copy_into_def)

text \<open>
  Parsing a formatted trace context gives the context back, with an empty trace state
  (the \<^verbatim>\<open>traceparent\<close> header does not carry it). Validity of the identifiers plays no
  part.
\<close>

lemma Parse_Format:
  assumes "length (TraceID tc) = 16" "length (SpanID tc) = 8"
  shows "ParseW3CTraceparent (FormatW3CTraceparent tc) = Inr (tc\<lparr>TraceState := []\<rparr>)"
proof -
  let ?A = "EncodeToString (TraceID tc)" and ?B = "EncodeToString (SpanID tc)"
  let ?C = "EncodeToString [TraceFlags tc]"
  have fmt: "FormatW3CTraceparent tc = ''00-'' @ ?A @ ''-'' @ ?B @ ''-'' @ ?C"
    by (simp add: FormatW3CTraceparent_def TraceID_String_def SpanID_String_def
        Sprintf_02x_Encode del: EncodeToString.simps)
  have "?C \<noteq> []" by simp
  then have shape: "TrimSpace (ToLower (FormatW3CTraceparent tc)) = FormatW3CTraceparent tc"
    unfolding fmt by (intro formatted_shape lower_hex_EncodeToString)
  have groups: "traceparentRegex (FormatW3CTraceparent tc) = Some (''00'', ?A, ?B, ?C)"
    unfolding fmt using assms
    by (intro traceparentRegex_formatted)
       (simp_all add: length_EncodeToString lower_hex_EncodeToString del: EncodeToString.simps)
  show ?thesis
    unfolding ParseW3CTraceparent_def shape groups
    using assms
    by (simp add: DecodeString_EncodeToString copy_into_exact del: EncodeToString.simps)
qed

text \<open>Groups of lower-case hex digits of even length always decode.\<close>

lemma fromHexChar_lower_hex: "is_lower_hex c \<Longrightarrow> \<exists>b. fromHexChar c = Some b"
  by (auto simp: is_lower_hex_def hextable_def fromHexChar_def)

lemma DecodeString_lower_hex:
  "list_all is_lower_hex s \<Longrightarrow> even (length s)
     \<Longrightarrow> \<exists>bs. DecodeString s = Some bs \<and> 2 * length bs = length s"
proof (induction s rule: DecodeString.induct)
  case 1
  then show ?case by simp
next
  case (2 p)
  then show ?case by simp
next
  case (3 p q s)
  from "3.prems" obtain a b where ab: "fromHexChar p = Some a" "fromHexChar q = Some b"
    using fromHexChar_lower_hex [of p] fromHexChar_lower_hex [of q] by auto
  from "3.prems" have "list_all is_lower_hex s" "even (length s)" by simp_all
  from "3.IH" [OF ab this] obtain bs where "DecodeString s = Some bs" "2 * length bs = length s"
    by auto
  with ab show ?case by simp
qed

lemma Parse_fails_iff:
  "(\<exists>e. ParseW3CTraceparent h = Inl e) \<longleftrightarrow> traceparent_rejected h"
proof (cases "traceparentRegex (TrimSpace (ToLower h))")
  case None
  then show ?thesis by (simp add: ParseW3CTraceparent_def traceparent_rejected_def)
next
  case (Some g)
  obtain v m2 m3 m4 where g: "g = (v, m2, m3, m4)" by (cases g) auto
  let ?s = "TrimSpace (ToLower h)"
  from Some g have len: "length ?s = 55"
    and m: "m2 = take 32 (drop 3 ?s)" "m3 = take 16 (drop 36 ?s)" "m4 = drop 53 ?s"
    and hex: "list_all is_lower_hex m2" "list_all is_lower_hex m3" "list_all is_lower_hex m4"
    by (auto simp: traceparentRegex_def split: if_splits)
  from len m have l: "length m2 = 32" "length m3 = 16" "length m4 = 2" by simp_all
  obtain b2 where b2: "DecodeString m2 = Some b2" "length b2 = 16"
    using DecodeString_lower_hex [OF hex(1)] l by auto
  obtain b3 where b3: "DecodeString m3 = Some b3" "length b3 = 8"
    using DecodeString_lower_hex [OF hex(2)] l by auto
  obtain b4 where b4: "DecodeString m4 = Some b4" "length b4 = 1"
    using DecodeString_lower_hex [OF hex(3)] l by auto
  show ?thesis
    by (simp add: ParseW3CTraceparent_def traceparent_rejected_def Some g b2 b3 b4)
qed

section \<open>Properties of the W3C wire format\<close>

text \<open>
  C1. Round trip: for every trace context whose trace ID and span ID are valid (not all
  zero), and every flags byte, parsing the formatted \<^verbatim>\<open>traceparent\<close> succeeds and
  gives the same trace ID, span ID and sampled flag (indeed the same flags byte).
\<close>

theorem W3C_round_trip:
  assumes "length (TraceID tc) = 16" and "length (SpanID tc) = 8"
    and "TraceID_IsValid (TraceID tc)" and "SpanID_IsValid (SpanID tc)"
  shows "\<exists>tc'. ParseW3CTraceparent (FormatW3CTraceparent tc) = Inr tc'
           \<and> TraceID tc' = TraceID tc \<and> SpanID tc' = SpanID tc
           \<and> IsSampled tc' = IsSampled tc \<and> TraceFlags tc' = TraceFlags tc"
  using Parse_Format [OF assms(1,2)] by (simp add: IsSampled_def)

theorem W3C_round_trip_witness:
  "TraceID_IsValid [0x4b, 0xf9, 0x2f, 0x35, 0x77, 0xb3, 0x4d, 0xa6,
                    0xa3, 0xce, 0x92, 0x9d, 0x0e, 0x0e, 0x47, 0x36]
   \<and> SpanID_IsValid [0x00, 0xf0, 0x67, 0xaa, 0x0b, 0xa9, 0x02, 0xb7]
   \<and> (\<exists>tc'. ParseW3CTraceparent (FormatW3CTraceparent
          \<lparr>TraceID = [0x4b, 0xf9, 0x2f, 0x35, 0x77, 0xb3, 0x4d, 0xa6,
                      0xa3, 0xce, 0x92, 0x9d, 0x0e, 0x0e, 0x47, 0x36],
           SpanID = [0x00, 0xf0, 0x67, 0xaa, 0x0b, 0xa9, 0x02, 0xb7],
           TraceFlags = 1, TraceState = []\<rparr>) = Inr tc'
        \<and> TraceID tc' = [0x4b, 0xf9, 0x2f, 0x35, 0x77, 0xb3, 0x4d, 0xa6,
                         0xa3, 0xce, 0x92, 0x9d, 0x0e, 0x0e, 0x47, 0x36]
        \<and> SpanID tc' = [0x00, 0xf0, 0x67, 0xaa, 0x0b, 0xa9, 0x02, 0xb7]
        \<and> IsSampled tc')"
proof -
  let ?t = "[0x4b, 0xf9, 0x2f, 0x35, 0x77, 0xb3, 0x4d, 0xa6,
             0xa3, 0xce, 0x92, 0x9d, 0x0e, 0x0e, 0x47, 0x36] :: byte list"
  let ?s = "[0x00, 0xf0, 0x67, 0xaa, 0x0b, 0xa9, 0x02, 0xb7] :: byte list"
  have v: "TraceID_IsValid ?t" "SpanID_IsValid ?s"
    by code_simp+
  show ?thesis
    using v W3C_round_trip [of "\<lparr>TraceID = ?t, SpanID = ?s, TraceFlags = 1, TraceState = []\<rparr>"]
    by (auto simp: IsSampled_def)
qed

text \<open>
  C5. \<^verbatim>\<open>W3CPropagator.Extract\<close> returns the incoming context unchanged when the
  \<^verbatim>\<open>traceparent\<close> header is absent and when it fails to parse; the parse fails exactly
  when the lower-cased, trimmed header does not match the grammar or its version is not
  \<^verbatim>\<open>00\<close>. \<open>W3CPropagator_Extract\<close> is a total function into contexts: no error
  reaches the caller.
\<close>

theorem Extract_fail_open:
  "((\<exists>e. ParseW3CTraceparent h = Inl e) \<longleftrightarrow> traceparent_rejected h)
   \<and> (carrier W3CTraceparentHeader = [] \<or> traceparent_rejected (carrier W3CTraceparentHeader)
        \<longrightarrow> W3CPropagator_Extract ctx carrier = ctx)"
proof (intro conjI impI)
  show "(\<exists>e. ParseW3CTraceparent h = Inl e) \<longleftrightarrow> traceparent_rejected h"
    by (rule Parse_fails_iff)
next
  assume "carrier W3CTraceparentHeader = [] \<or> traceparent_rejected (carrier W3CTraceparentHeader)"
  then show "W3CPropagator_Extract ctx carrier = ctx"
  proof
    assume "carrier W3CTraceparentHeader = []"
    then show ?thesis by (simp add: W3CPropagator_Extract_def)
  next
    assume "traceparent_rejected (carrier W3CTraceparentHeader)"
    then obtain e where "ParseW3CTraceparent (carrier W3CTraceparentHeader) = Inl e"
      using Parse_fails_iff by blast
    then show ?thesis by (simp add: W3CPropagator_Extract_def Let_def)
  qed
qed

theorem Extract_fail_open_witness:
  "traceparent_rejected ''01-4bf92f3577b34da6a3ce929d0e0e4736-00f067aa0ba902b7-01''
   \<and> ParseW3CTraceparent ''01-4bf92f3577b34da6a3ce929d0e0e4736-00f067aa0ba902b7-01''
        = Inl ErrInvalidContext
   \<and> W3CPropagator_Extract \<lparr>ctx_span = Some 3, ctx_tc = None\<rparr>
        (\<lambda>k. if k = ''traceparent''
              then ''01-4bf92f3577b34da6a3ce929d0e0e4736-00f067aa0ba902b7-01'' else [])
        = \<lparr>ctx_span = Some 3, ctx_tc = None\<rparr>
   \<and> W3CPropagator_Extract \<lparr>ctx_span = Some 3, ctx_tc = None\<rparr> (\<lambda>k. [])
        = \<lparr>ctx_span = Some 3, ctx_tc = None\<rparr>"
proof -
  let ?h = "''01-4bf92f3577b34da6a3ce929d0e0e4736-00f067aa0ba902b7-01''"
  let ?c = "\<lambda>k. if k = ''traceparent'' then ?h else []"
  let ?ctx = "\<lparr>ctx_span = Some 3, ctx_tc = None\<rparr>"
  have r: "traceparent_rejected ?h" by code_simp
  have p: "ParseW3CTraceparent ?h = Inl ErrInvalidContext" by code_simp
  have 1: "W3CPropagator_Extract ?ctx ?c = ?ctx"
    using Extract_fail_open [of ?h ?c ?ctx] r by (simp add: W3CTraceparentHeader_def)
  have 2: "W3CPropagator_Extract ?ctx (\<lambda>k. []) = ?ctx"
    using Extract_fail_open [of ?h "\<lambda>k. []" ?ctx] by simp
  from r p 1 2 show ?thesis by simp
qed


section \<open>Properties of the samplers\<close>
















lemma Sampler_calls_TraceIDRatio: "Sampler_calls (TraceIDRatio s) qs = TraceIDRatio s"
  by (induction qs) (simp_all add: TraceIDRatioSampler_ShouldSample_def)

text \<open>
  C9. The decision of \<^verbatim>\<open>TraceIDRatioSample(p)\<close> depends on \<open>p\<close> and the trace ID
  alone: after any sequence of earlier calls \<open>qs\<close> on one instance, a call gives the same
  boolean as the first call on a fresh instance built with the same \<open>p\<close>, for any two
  parameter records that agree on the trace ID (whatever their name and parent ID).
\<close>

theorem TraceIDRatio_deterministic:
  assumes "p_TraceID q1 = p_TraceID q2"
  shows "fst (ShouldSample (Sampler_calls (TraceIDRatio (TraceIDRatioSample p)) qs) q1)
           = fst (ShouldSample (TraceIDRatio (TraceIDRatioSample p)) q2)"
  using assms
  by (simp add: Sampler_calls_TraceIDRatio TraceIDRatioSampler_ShouldSample_def)

theorem TraceIDRatio_deterministic_witness:
  "p_TraceID \<lparr>p_TraceID = [0x4b, 0xf9, 0x2f, 0x35, 0x77, 0xb3, 0x4d, 0xa6, 0xa3, 0xce, 0x92, 0x9d, 0x0e, 0x0e, 0x47, 0x36], p_Name = ''a'', p_ParentID = replicate 8 0\<rparr>
     = p_TraceID \<lparr>p_TraceID = [0x4b, 0xf9, 0x2f, 0x35, 0x77, 0xb3, 0x4d, 0xa6, 0xa3, 0xce, 0x92, 0x9d, 0x0e, 0x0e, 0x47, 0x36], p_Name = ''b'', p_ParentID = replicate 8 7\<rparr>
   \<and> fst (ShouldSample (Sampler_calls (TraceIDRatio (TraceIDRatioSample (1 / 10)))
          [\<lparr>p_TraceID = replicate 16 98, p_Name = ''c'', p_ParentID = replicate 8 0\<rparr>])
          \<lparr>p_TraceID = [0x4b, 0xf9, 0x2f, 0x35, 0x77, 0xb3, 0x4d, 0xa6, 0xa3, 0xce, 0x92, 0x9d, 0x0e, 0x0e, 0x47, 0x36], p_Name = ''a'', p_ParentID = replicate 8 0\<rparr>)
       = fst (ShouldSample (TraceIDRatio (TraceIDRatioSample (1 / 10)))
          \<lparr>p_TraceID = [0x4b, 0xf9, 0x2f, 0x35, 0x77, 0xb3, 0x4d, 0xa6, 0xa3, 0xce, 0x92, 0x9d, 0x0e, 0x0e, 0x47, 0x36], p_Name = ''b'', p_ParentID = replicate 8 7\<rparr>)"
  using TraceIDRatio_deterministic
    [of "\<lparr>p_TraceID = [0x4b, 0xf9, 0x2f, 0x35, 0x77, 0xb3, 0x4d, 0xa6, 0xa3, 0xce, 0x92, 0x9d, 0x0e, 0x0e, 0x47, 0x36], p_Name = ''a'', p_ParentID = replicate 8 0\<rparr>"
        "\<lparr>p_TraceID = [0x4b, 0xf9, 0x2f, 0x35, 0x77, 0xb3, 0x4d, 0xa6, 0xa3, 0xce, 0x92, 0x9d, 0x0e, 0x0e, 0x47, 0x36], p_Name = ''b'', p_ParentID = replicate 8 7\<rparr>"
        "1 / 10" "[\<lparr>p_TraceID = replicate 16 98, p_Name = ''c'', p_ParentID = replicate 8 0\<rparr>]"]
  by simp

section \<open>The invariant of reachable states\<close>

lemma inv_New: "inv (New opts)"
  by (simp add: inv_def New_def pooled_def Span_zero_def queued_ok_def)

lemma upd_fields [simp]:
  "heap (upd a f st) = (heap st)(a := f (heap st a))"
  "nextAddr (upd a f st) = nextAddr st"
  "spanPool (upd a f st) = spanPool st"
  "asyncCh (upd a f st) = asyncCh st"
  "exporter_log (upd a f st) = exporter_log st"
  "tracer_closed (upd a f st) = tracer_closed st"
  "opts_Sampler (upd a f st) = opts_Sampler st"
  "opts_AsyncBufferSize (upd a f st) = opts_AsyncBufferSize st"
  by (simp_all add: upd_def)

lemma inv_upd_stale:
  assumes "inv st"
    and "\<And>s. traceID (f s) = traceID s \<and> sampled (f s) = sampled s \<and> noop (f s) = noop s
              \<and> (ended s \<longrightarrow> ended (f s))"
  shows "inv (upd a f st)"
  using assms unfolding inv_def pooled_def queued_ok_def list_all_iff
  by (auto split: option.splits)

lemma inv_upd_inuse:
  assumes "inv st" and "inuse st a"
  shows "inv (upd a f st)"
  using assms unfolding inv_def inuse_def pooled_def queued_ok_def list_all_iff
  by (auto split: option.splits)

lemma inuse_upd [simp]: "inuse (upd b f st) a = inuse st a"
  by (simp add: inuse_def)

lemma inv_Sampler_update [simp]: "inv (st\<lparr>opts_Sampler := x\<rparr>) = inv st"
  by (auto simp: inv_def queued_ok_def split: option.splits)

lemma inv_SetAttribute: "inv st \<Longrightarrow> inv (SetAttribute key val a st)"
  by (simp add: SetAttribute_def inv_upd_stale)

lemma inv_SetAttributes: "inv st \<Longrightarrow> inv (SetAttributes attrs a st)"
  by (simp add: SetAttributes_def inv_upd_stale)

lemma inv_AddEvent: "inv st \<Longrightarrow> inv (AddEvent nm attrs now a st)"
  by (simp add: AddEvent_def inv_upd_stale)

lemma inv_SetStatus: "inv st \<Longrightarrow> inv (SetStatus stat msg a st)"
  by (simp add: SetStatus_def inv_upd_stale)

lemma inv_RecordError: "inv st \<Longrightarrow> inv (RecordError err now a st)"
  by (simp add: RecordError_def inv_SetStatus inv_AddEvent split: option.splits)

lemma inv_Export: "inv st \<Longrightarrow> a < nextAddr st \<Longrightarrow> inv (Exporter_Export a st)"
  unfolding inv_def Exporter_Export_def queued_ok_def by (auto split: option.splits)

lemma inuse_Export [simp]: "inuse (Exporter_Export b st) a = inuse st a"
  by (simp add: inuse_def Exporter_Export_def)

lemma inv_releaseSpan: "inv st \<Longrightarrow> inuse st a \<Longrightarrow> inv (releaseSpan a st)"
  unfolding inv_def inuse_def releaseSpan_def pooled_def queued_ok_def list_all_iff reset_def
  by (auto simp: Let_def split: option.splits)

lemma sampled_inuse:
  assumes "inv st" and "sampled (heap st a)" and "\<not> ended (heap st a)"
  shows "inuse st a"
proof -
  from assms(1,2) have "a < nextAddr st"
    unfolding inv_def pooled_def by (meson not_le)
  moreover from assms(1,2) have "a \<notin> set (spanPool st)"
    unfolding inv_def pooled_def list_all_iff by auto
  moreover from assms(1,3) have "case asyncCh st of None \<Rightarrow> True | Some q \<Rightarrow> a \<notin> set q"
    unfolding inv_def queued_ok_def list_all_iff by (auto split: option.splits)
  ultimately show ?thesis by (simp add: inuse_def)
qed

lemma inv_exportSpan:
  assumes "inv st" and "inuse st a" and "ended (heap st a)" and "\<not> noop (heap st a)"
  shows "inv (exportSpan a st)"
proof -
  have sync: "inv (releaseSpan a (Exporter_Export a st))"
    using assms by (intro inv_releaseSpan inv_Export) (simp_all, simp add: inuse_def)
  have enq: "inv (st\<lparr>asyncCh := Some (q @ [a])\<rparr>)" if "asyncCh st = Some q" for q
    using assms that unfolding inv_def inuse_def queued_ok_def list_all_iff by auto
  show ?thesis
    unfolding exportSpan_def using sync enq by (auto split: option.splits)
qed

lemma inv_End: "inv st \<Longrightarrow> inv (End now a st)"
proof -
  assume i: "inv st"
  let ?st1 = "upd a (\<lambda>s. s\<lparr>ended := True, endTime := now\<rparr>) st"
  have i1: "inv ?st1" using i by (simp add: inv_upd_stale)
  have "inv (exportSpan a ?st1)"
    if "sampled (heap st a)" "\<not> ended (heap st a)" "\<not> noop (heap st a)"
    using i1 sampled_inuse [OF i that(1,2)] that by (intro inv_exportSpan) simp_all
  with i i1 show ?thesis by (auto simp: End_def Let_def)
qed

lemma inv_worker_body:
  assumes "inv st" and "asyncCh st = Some (a # q)"
  shows "inv (releaseSpan a (Exporter_Export a (st\<lparr>asyncCh := Some q\<rparr>)))"
proof -
  let ?st = "st\<lparr>asyncCh := Some q\<rparr>"
  from assms have "inv ?st" "inuse ?st a"
    unfolding inv_def inuse_def queued_ok_def list_all_iff by auto
  then show ?thesis by (intro inv_releaseSpan inv_Export) (simp_all, simp add: inuse_def)
qed

lemma inv_asyncWorker_step: "inv st \<Longrightarrow> inv (asyncWorker_step st)"
  by (auto simp: asyncWorker_step_def inv_worker_body split: option.splits list.splits)

lemma asyncCh_worker_body [simp]:
  "asyncCh (releaseSpan a (Exporter_Export a st)) = asyncCh st"
  by (simp add: releaseSpan_def Exporter_Export_def Let_def)

lemma inv_asyncWorker_drain:
  "inv st \<Longrightarrow> asyncCh st = Some q \<Longrightarrow> inv (asyncWorker_drain q st)"
proof (induction q arbitrary: st)
  case Nil
  then show ?case by simp
next
  case (Cons a q)
  show ?case
    using Cons.prems by (simp add: Cons.IH inv_worker_body)
qed

lemma inv_closed_update [simp]: "inv (st\<lparr>tracer_closed := x\<rparr>) = inv st"
  by (auto simp: inv_def queued_ok_def split: option.splits)

lemma inv_Close: "inv st \<Longrightarrow> inv (Close st)"
  by (auto simp: Close_def Let_def inv_asyncWorker_drain split: option.splits)

lemma getSpan_inv:
  assumes "inv st" and "getSpan st = (a, st1)"
  shows "inv st1 \<and> inuse st1 a"
proof (cases "spanPool st")
  case Nil
  with assms(2) have a: "a = nextAddr st"
    and st1: "st1 = upd a reset (st\<lparr>heap := (heap st)(nextAddr st := Span_zero),
                                     nextAddr := Suc (nextAddr st)\<rparr>)"
    by (auto simp: getSpan_def spanPool_Get_def)
  let ?st0 = "st\<lparr>heap := (heap st)(nextAddr st := Span_zero), nextAddr := Suc (nextAddr st)\<rparr>"
  from assms(1) Nil have "inv ?st0"
    unfolding inv_def pooled_def queued_ok_def list_all_iff
    by (auto split: option.splits)
  moreover from assms(1) Nil have "inuse ?st0 a"
    unfolding a inv_def inuse_def queued_ok_def list_all_iff by (auto split: option.splits)
  ultimately show ?thesis unfolding st1 by (simp add: inv_upd_inuse)
next
  case (Cons b rest)
  with assms(2) have a: "a = b" and st1: "st1 = upd a reset (st\<lparr>spanPool := rest\<rparr>)"
    by (auto simp: getSpan_def spanPool_Get_def)
  let ?st0 = "st\<lparr>spanPool := rest\<rparr>"
  from assms(1) Cons have "inv ?st0"
    unfolding inv_def pooled_def queued_ok_def list_all_iff
    by (auto split: option.splits)
  moreover from assms(1) Cons have "inuse ?st0 a"
    unfolding a inv_def inuse_def queued_ok_def list_all_iff by (auto split: option.splits)
  ultimately show ?thesis unfolding st1 by (simp add: inv_upd_inuse)
qed

lemma inv_Start: "inv st \<Longrightarrow> inv (snd (snd (Start ctx nm opts rndT rndS now st)))"
proof (cases "tracer_closed st")
  case True
  assume "inv st"
  then show ?thesis using True
    unfolding Start_def inv_def pooled_def queued_ok_def list_all_iff Span_zero_def
    by (auto split: option.splits)
next
  case False
  assume i: "inv st"
  obtain a st1 where g: "getSpan st = (a, st1)" by (cases "getSpan st")
  from getSpan_inv [OF i g] have i1: "inv st1" "inuse st1 a" by simp_all
  show ?thesis
    using False g i1
    by (auto simp: Start_def Let_def inv_upd_inuse split: option.splits prod.splits)
qed

lemma inv_exec: "inv st \<Longrightarrow> inv (exec c st)"
  by (cases c)
     (simp_all add: inv_Start inv_SetAttribute inv_SetAttributes inv_AddEvent inv_SetStatus
        inv_RecordError inv_End inv_Close inv_asyncWorker_step)

lemma inv_run: "inv st \<Longrightarrow> inv (run cs st)"
  by (induction cs arbitrary: st) (simp_all add: inv_exec)

lemma inv_reachable: "inv (run cs (New opts))"
  by (rule inv_run [OF inv_New])

section \<open>Frame properties\<close>

lemma releaseSpan_fields [simp]:
  "heap (releaseSpan b st) = (heap st)(b := reset (heap st b))"
  "nextAddr (releaseSpan b st) = nextAddr st"
  "spanPool (releaseSpan b st) = b # spanPool st"
  "exporter_log (releaseSpan b st) = exporter_log st"
  "tracer_closed (releaseSpan b st) = tracer_closed st"
  "asyncCh (releaseSpan b st) = asyncCh st"
  "opts_AsyncBufferSize (releaseSpan b st) = opts_AsyncBufferSize st"
  "opts_Sampler (releaseSpan b st) = opts_Sampler st"
  by (simp_all add: releaseSpan_def Let_def)

lemma Export_fields [simp]:
  "heap (Exporter_Export b st) = heap st"
  "nextAddr (Exporter_Export b st) = nextAddr st"
  "spanPool (Exporter_Export b st) = spanPool st"
  "exporter_log (Exporter_Export b st) = exporter_log st @ [(b, heap st b)]"
  "tracer_closed (Exporter_Export b st) = tracer_closed st"
  "asyncCh (Exporter_Export b st) = asyncCh st"
  "opts_AsyncBufferSize (Exporter_Export b st) = opts_AsyncBufferSize st"
  "opts_Sampler (Exporter_Export b st) = opts_Sampler st"
  by (simp_all add: Exporter_Export_def)

lemma untouched_refl [simp]: "untouched a st st"
  by (simp add: untouched_def)

lemma untouched_trans: "untouched a st st' \<Longrightarrow> untouched a st' st'' \<Longrightarrow> untouched a st st''"
  by (auto simp: untouched_def)

lemma untouched_upd: "b \<noteq> a \<Longrightarrow> untouched a st (upd b f st)"
  by (simp add: untouched_def)

lemma untouched_exportSpan: "b \<noteq> a \<Longrightarrow> untouched a st (exportSpan b st)"
  by (auto simp: untouched_def exportSpan_def split: option.splits)

lemma untouched_mutators:
  assumes "noop (heap st a)"
  shows "untouched a st (SetAttribute key val b st)"
    and "untouched a st (SetAttributes attrs b st)"
    and "untouched a st (AddEvent nm attrs now b st)"
    and "untouched a st (SetStatus stat msg b st)"
  using assms
  by (cases "b = a"; simp add: SetAttribute_def SetAttributes_def AddEvent_def SetStatus_def
        untouched_upd)+

lemma untouched_RecordError:
  assumes "noop (heap st a)"
  shows "untouched a st (RecordError err now b st)"
proof (cases "b = a")
  case True
  with assms show ?thesis by (simp add: RecordError_def split: option.splits)
next
  case False
  then show ?thesis
    by (auto simp: RecordError_def SetStatus_def AddEvent_def untouched_def split: option.splits)
qed

lemma untouched_End:
  assumes "noop (heap st a)"
  shows "untouched a st (End now b st)"
proof (cases "b = a")
  case True
  with assms show ?thesis by (simp add: End_def)
next
  case False
  let ?st1 = "upd b (\<lambda>s. s\<lparr>ended := True, endTime := now\<rparr>) st"
  have "untouched a st ?st1" using False by (rule untouched_upd)
  moreover have "untouched a ?st1 (exportSpan b ?st1)" using False by (rule untouched_exportSpan)
  ultimately have "untouched a st (exportSpan b ?st1)" by (rule untouched_trans)
  with \<open>untouched a st ?st1\<close> show ?thesis by (simp add: End_def Let_def)
qed

lemma untouched_worker_body:
  "b \<noteq> a \<Longrightarrow> untouched a st (releaseSpan b (Exporter_Export b (st\<lparr>asyncCh := q\<rparr>)))"
  by (auto simp: untouched_def)

lemma noop_not_queued:
  assumes "inv st" and "noop (heap st a)" and "asyncCh st = Some q"
  shows "a \<notin> set q"
  using assms unfolding inv_def queued_ok_def list_all_iff by auto

lemma noop_allocated:
  assumes "inv st" and "noop (heap st a)"
  shows "a < nextAddr st" and "a \<notin> set (spanPool st)"
  using assms unfolding inv_def pooled_def list_all_iff by (auto simp: not_le [symmetric])

lemma untouched_asyncWorker_step:
  assumes "inv st" and "noop (heap st a)"
  shows "untouched a st (asyncWorker_step st)"
proof (cases "asyncCh st")
  case None
  then show ?thesis by (simp add: asyncWorker_step_def)
next
  case (Some q)
  show ?thesis
  proof (cases q)
    case Nil
    with Some show ?thesis by (simp add: asyncWorker_step_def)
  next
    case (Cons b q')
    with noop_not_queued [OF assms Some] have "b \<noteq> a" by auto
    with Some Cons show ?thesis by (simp add: asyncWorker_step_def untouched_worker_body)
  qed
qed

lemma untouched_asyncWorker_drain:
  "a \<notin> set q \<Longrightarrow> untouched a st (asyncWorker_drain q st)"
proof (induction q arbitrary: st)
  case Nil
  then show ?case by simp
next
  case (Cons b q)
  then have "b \<noteq> a" "a \<notin> set q" by auto
  from untouched_worker_body [OF this(1)] Cons.IH [OF this(2)]
  show ?case by (auto intro: untouched_trans)
qed

lemma untouched_Close:
  assumes "inv st" and "noop (heap st a)"
  shows "untouched a st (Close st)"
proof -
  have "untouched a st (st\<lparr>tracer_closed := True\<rparr>)" by (simp add: untouched_def)
  moreover have "untouched a (st\<lparr>tracer_closed := True\<rparr>)
      (asyncWorker_drain q (st\<lparr>tracer_closed := True\<rparr>))" if "asyncCh st = Some q" for q
    using noop_not_queued [OF assms that] by (rule untouched_asyncWorker_drain)
  ultimately show ?thesis
    by (auto simp: Close_def Let_def split: option.splits intro: untouched_trans)
qed

lemma SpanOption_apply_ids [simp]:
  "traceID (SpanOption_apply x s) = traceID s"
  "spanID (SpanOption_apply x s) = spanID s"
  "parentID (SpanOption_apply x s) = parentID s"
  "noop (SpanOption_apply x s) = noop s"
  "ended (SpanOption_apply x s) = ended s"
  "tracer (SpanOption_apply x s) = tracer s"
  "sampled (SpanOption_apply x s) = sampled s"
  by (cases x; simp)+

lemma fold_SpanOption_ids [simp]:
  "traceID (fold SpanOption_apply opts s) = traceID s"
  "spanID (fold SpanOption_apply opts s) = spanID s"
  "parentID (fold SpanOption_apply opts s) = parentID s"
  "noop (fold SpanOption_apply opts s) = noop s"
  "ended (fold SpanOption_apply opts s) = ended s"
  "tracer (fold SpanOption_apply opts s) = tracer s"
  "sampled (fold SpanOption_apply opts s) = sampled s"
  by (induction opts arbitrary: s; simp)+

lemma getSpan_result:
  assumes "getSpan st = (a, st1)"
  shows "a = nextAddr st \<or> a \<in> set (spanPool st)"
    and "\<And>x. x \<noteq> a \<Longrightarrow> heap st1 x = heap st x"
    and "exporter_log st1 = exporter_log st"
    and "nextAddr st \<le> nextAddr st1"
    and "tracer_closed st1 = tracer_closed st"
    and "opts_Sampler st1 = opts_Sampler st"
    and "parentID (heap st1 a) = replicate 8 0"
    and "traceID (heap st1 a) = replicate 16 0"
    and "\<not> noop (heap st1 a)" and "\<not> ended (heap st1 a)"
  using assms
  by (auto simp: getSpan_def spanPool_Get_def reset_def split: list.splits)

lemma Start_open:
  assumes "\<not> tracer_closed st" and "getSpan st = (a, st1)"
    and "Start ctx nm opts rndT rndS now st = (ctx', b, st')"
  shows "b = a" and "ctx' = ContextWithSpan ctx a"
    and "\<And>x. x \<noteq> a \<Longrightarrow> heap st' x = heap st1 x"
    and "exporter_log st' = exporter_log st1"
    and "nextAddr st' = nextAddr st1"
    and "tracer_closed st' = tracer_closed st1"
    and "spanID (heap st' a) = rndS"
    and "traceID (heap st' a) =
          (case start_ids (upd a (\<lambda>s. s\<lparr>tracer := True, name := nm, startTime := now\<rparr>) st1) ctx
           of Some (t, p) \<Rightarrow> t | None \<Rightarrow> rndT)"
    and "parentID (heap st' a) =
          (case start_ids (upd a (\<lambda>s. s\<lparr>tracer := True, name := nm, startTime := now\<rparr>) st1) ctx
           of Some (t, p) \<Rightarrow> p | None \<Rightarrow> replicate 8 0)"
    and "\<not> noop (heap st' a)" and "\<not> ended (heap st' a)" and "tracer (heap st' a)"
  using assms getSpan_result(7,9,10) [OF assms(2)]
  by (auto simp: Start_def Let_def start_ids_def split: option.splits prod.splits)

section \<open>The closed flag\<close>

lemma exportSpan_closed [simp]: "tracer_closed (exportSpan a st) = tracer_closed st"
  by (simp add: exportSpan_def split: option.splits)

lemma asyncWorker_drain_closed [simp]:
  "tracer_closed (asyncWorker_drain q st) = tracer_closed st"
  by (induction q arbitrary: st) simp_all

lemma Start_closed_flag [simp]:
  "tracer_closed (snd (snd (Start ctx nm opts rndT rndS now st))) = tracer_closed st"
proof (cases "tracer_closed st")
  case True
  then show ?thesis by (simp add: Start_def)
next
  case False
  obtain a st1 where g: "getSpan st = (a, st1)" by (cases "getSpan st")
  obtain ctx' b st' where s: "Start ctx nm opts rndT rndS now st = (ctx', b, st')"
    by (cases "Start ctx nm opts rndT rndS now st") auto
  from Start_open(6) [OF False g s] getSpan_result(5) [OF g] s show ?thesis by simp
qed

lemma closed_exec: "tracer_closed (exec c st) \<longleftrightarrow> tracer_closed st \<or> c = CallClose"
  by (cases c)
     (auto simp: SetAttribute_def SetAttributes_def AddEvent_def SetStatus_def RecordError_def
        End_def Close_def asyncWorker_step_def Let_def split: option.splits list.splits)

lemma closed_run: "tracer_closed (run cs st) \<longleftrightarrow> tracer_closed st \<or> CallClose \<in> set cs"
  by (induction cs arbitrary: st) (auto simp: closed_exec)

lemma closed_reachable: "tracer_closed (run cs (New opts0)) \<longleftrightarrow> CallClose \<in> set cs"
  by (simp add: closed_run New_def)

section \<open>No-op spans stay out of the pipeline\<close>

lemma untouched_Start:
  assumes "inv st" and "noop (heap st a)"
  shows "untouched a st (snd (snd (Start ctx nm opts rndT rndS now st)))"
proof (cases "tracer_closed st")
  case True
  with noop_allocated(1) [OF assms] show ?thesis
    by (simp add: Start_def untouched_def)
next
  case False
  obtain a' st1 where g: "getSpan st = (a', st1)" by (cases "getSpan st")
  obtain ctx' b st' where s: "Start ctx nm opts rndT rndS now st = (ctx', b, st')"
    by (cases "Start ctx nm opts rndT rndS now st") auto
  from getSpan_result(1) [OF g] noop_allocated [OF assms] have ne: "a \<noteq> a'" by auto
  from Start_open(3) [OF False g s ne] getSpan_result(2) [OF g ne]
  have "heap st' a = heap st a" by simp
  moreover from Start_open(4,5) [OF False g s] getSpan_result(3,4) [OF g]
  have "exporter_log st' = exporter_log st" "nextAddr st \<le> nextAddr st'" by simp_all
  ultimately show ?thesis using s by (simp add: untouched_def)
qed

lemma untouched_exec:
  assumes "inv st" and "noop (heap st a)"
  shows "untouched a st (exec c st)"
  using assms
  by (cases c)
     (simp_all add: untouched_Start untouched_mutators untouched_RecordError untouched_End
        untouched_Close untouched_asyncWorker_step)

lemma untouched_run:
  "inv st \<Longrightarrow> noop (heap st a) \<Longrightarrow> untouched a st (run cs st)"
proof (induction cs arbitrary: st)
  case Nil
  then show ?case by simp
next
  case (Cons c cs)
  from untouched_exec [OF Cons.prems] have u: "untouched a st (exec c st)" .
  then have "noop (heap (exec c st) a)" using Cons.prems(2) by (simp add: untouched_def)
  from Cons.IH [OF inv_exec [OF Cons.prems(1)] this] u show ?case
    by (auto intro: untouched_trans)
qed

lemma noop_span_inert:
  assumes "noop (heap st a)"
  shows "SetAttribute key val a st = st" and "SetAttributes attrs a st = st"
    and "AddEvent nm attrs2 t a st = st" and "SetStatus stat msg a st = st"
    and "RecordError err t a st = st" and "End t a st = st"
  using assms
  by (simp_all add: SetAttribute_def SetAttributes_def AddEvent_def SetStatus_def
      RecordError_def End_def split: option.splits)

text \<open>
  C8. Once \<^verbatim>\<open>Close\<close> has been called (anywhere in the calls \<open>cs\<close> made on a new
  tracer), \<^verbatim>\<open>Start\<close> returns the context unchanged and a no-op span. Whatever calls
  \<open>cs'\<close> follow, the span stays a no-op span, each of \<^verbatim>\<open>SetAttribute\<close>,
  \<^verbatim>\<open>SetAttributes\<close>, \<^verbatim>\<open>AddEvent\<close>, \<^verbatim>\<open>SetStatus\<close>, \<^verbatim>\<open>RecordError\<close> and
  \<^verbatim>\<open>End\<close> on it changes nothing at all, and the exporter never receives it.
\<close>

theorem closed_tracer_Start_noop:
  assumes "CallClose \<in> set cs"
    and "Start ctx nm opts rndT rndS now (run cs (New opts0)) = (ctx', a, st')"
  shows "ctx' = ctx \<and> noop (heap (run cs' st') a)
       \<and> SetAttribute key val a (run cs' st') = run cs' st'
       \<and> SetAttributes attrs a (run cs' st') = run cs' st'
       \<and> AddEvent nm2 attrs2 t a (run cs' st') = run cs' st'
       \<and> SetStatus stat msg a (run cs' st') = run cs' st'
       \<and> RecordError err t a (run cs' st') = run cs' st'
       \<and> End t a (run cs' st') = run cs' st'
       \<and> a \<notin> fst ` set (exporter_log (run cs' st'))"
proof -
  let ?st = "run cs (New opts0)"
  have i: "inv ?st" by (rule inv_reachable)
  have c: "tracer_closed ?st" using assms(1) by (simp add: closed_reachable)
  from assms(2) c have ctx: "ctx' = ctx" and a: "a = nextAddr ?st"
    and st': "st' = ?st\<lparr>heap := (heap ?st)(nextAddr ?st := Span_zero\<lparr>noop := True\<rparr>),
                        nextAddr := Suc (nextAddr ?st)\<rparr>"
    by (auto simp: Start_def)
  have i': "inv st'"
    using inv_Start [OF i, of ctx nm opts rndT rndS now] assms(2) by simp
  have n: "noop (heap st' a)" by (simp add: st' a)
  have fresh: "a \<notin> fst ` set (exporter_log st')"
    using i unfolding st' a inv_def list_all_iff by auto
  from untouched_run [OF i' n, of cs']
  have n': "noop (heap (run cs' st') a)" and "a \<notin> fst ` set (exporter_log (run cs' st'))"
    using n fresh by (auto simp: untouched_def)
  with ctx noop_span_inert [OF n'] show ?thesis by simp
qed

theorem closed_tracer_Start_noop_witness:
  "CallClose \<in> set [CallClose]
   \<and> fst ex_closed_start = ex_ctx \<and> fst (snd ex_closed_start) = 0
   \<and> noop (heap (run [CallSetAttribute ''k'' (AnyInt 1) 0, CallEnd 9 0]
                    (snd (snd ex_closed_start))) 0)
   \<and> End 9 0 (snd (snd ex_closed_start)) = snd (snd ex_closed_start)
   \<and> SetAttribute ''k'' (AnyInt 1) 0 (snd (snd ex_closed_start)) = snd (snd ex_closed_start)
   \<and> 0 \<notin> fst ` set (exporter_log (run [CallSetAttribute ''k'' (AnyInt 1) 0, CallEnd 9 0]
                    (snd (snd ex_closed_start))))"
proof -
  have c: "CallClose \<in> set [CallClose]" by simp
  have a: "fst (snd ex_closed_start) = 0" by code_simp
  have e: "Start ex_ctx ''op'' [] ex_tid ex_sid 5 (run [CallClose] (New ex_opts))
             = (fst ex_closed_start, 0, snd (snd ex_closed_start))"
    unfolding a [symmetric] by (simp add: ex_closed_start_def)
  from closed_tracer_Start_noop [OF c e,
      where cs' = "[CallSetAttribute ''k'' (AnyInt 1) 0, CallEnd 9 0]"]
  have 1: "fst ex_closed_start = ex_ctx"
    "noop (heap (run [CallSetAttribute ''k'' (AnyInt 1) 0, CallEnd 9 0]
                    (snd (snd ex_closed_start))) 0)"
    "0 \<notin> fst ` set (exporter_log (run [CallSetAttribute ''k'' (AnyInt 1) 0, CallEnd 9 0]
                    (snd (snd ex_closed_start))))"
    by simp_all
  from closed_tracer_Start_noop [OF c e, where cs' = "[]" and key = "''k''"
      and val = "AnyInt 1" and t = 9]
  have 2: "End 9 0 (snd (snd ex_closed_start)) = snd (snd ex_closed_start)"
    "SetAttribute ''k'' (AnyInt 1) 0 (snd (snd ex_closed_start)) = snd (snd ex_closed_start)"
    by simp_all
  from c a 1 2 show ?thesis by simp
qed





lemma exportSpan_sync:
  assumes "tracer_closed st \<or> asyncCh st = None
             \<or> (\<exists>q. asyncCh st = Some q \<and> opts_AsyncBufferSize st \<le> length q)"
  shows "exportSpan a st = releaseSpan a (Exporter_Export a st)"
  using assms by (auto simp: exportSpan_def split: option.splits)







section \<open>Mutation after End\<close>

text \<open>
  While the \<open>ended\<close> flag of a span is set, every mutation method and \<^verbatim>\<open>End\<close> leave the
  whole state unchanged; \<^verbatim>\<open>End\<close> on an unsampled span sets the flag and nothing clears
  it, so an unsampled span is frozen.
\<close>

lemma ended_span_frozen:
  assumes "ended (heap st a)"
  shows "SetAttribute key val a st = st" and "SetAttributes attrs a st = st"
    and "AddEvent nm attrs2 t a st = st" and "SetStatus stat msg a st = st"
    and "RecordError err t a st = st" and "End t a st = st"
  using assms
  by (simp_all add: SetAttribute_def SetAttributes_def AddEvent_def SetStatus_def
      RecordError_def End_def split: option.splits)

lemma unsampled_End_sets_ended:
  assumes "\<not> sampled (heap st a)" and "\<not> noop (heap st a)" and "\<not> ended (heap st a)"
  shows "End now a st = upd a (\<lambda>s. s\<lparr>ended := True, endTime := now\<rparr>) st"
    and "ended (heap (End now a st) a)"
  using assms by (simp_all add: End_def Let_def)

text \<open>
  On the synchronous path \<^verbatim>\<open>End\<close> leaves a sampled span reset: \<open>ended\<close> is false
  again, so a later \<^verbatim>\<open>SetAttribute\<close> is recorded and a later \<^verbatim>\<open>End\<close> stamps its own
  end time.
\<close>

lemma sync_End_clears_ended:
  assumes "sampled (heap st a)" and "tracer (heap st a)"
    and "\<not> noop (heap st a)" and "\<not> ended (heap st a)"
    and "tracer_closed st \<or> asyncCh st = None"
  shows "heap (End now a st) a = reset ((heap st a)\<lparr>ended := True, endTime := now\<rparr>)"
    and "\<not> ended (heap (End now a st) a)"
    and "attributes (heap (SetAttribute key val a (End now a st)) a) = [\<lparr>Key = key, Value = val\<rparr>]"
    and "endTime (heap (End t2 a (End now a st)) a) = t2"
proof -
  let ?st1 = "upd a (\<lambda>s. s\<lparr>ended := True, endTime := now\<rparr>) st"
  have "tracer_closed ?st1 \<or> asyncCh ?st1 = None
      \<or> (\<exists>q. asyncCh ?st1 = Some q \<and> opts_AsyncBufferSize ?st1 \<le> length q)"
    using assms(5) by auto
  from exportSpan_sync [OF this, of a] assms(1-4)
  have E: "End now a st = releaseSpan a (Exporter_Export a ?st1)"
    by (simp add: End_def Let_def)
  show h: "heap (End now a st) a = reset ((heap st a)\<lparr>ended := True, endTime := now\<rparr>)"
    unfolding E by simp
  then show "\<not> ended (heap (End now a st) a)" by (simp add: reset_def)
  from h show "attributes (heap (SetAttribute key val a (End now a st)) a)
      = [\<lparr>Key = key, Value = val\<rparr>]"
    by (simp add: SetAttribute_def reset_def)
  from h show "endTime (heap (End t2 a (End now a st)) a) = t2"
    by (simp add: End_def Let_def reset_def)
qed

text \<open>
  C3 at a sampled span on a synchronous tracer. \<^verbatim>\<open>End\<close> exports the span and
  \<^verbatim>\<open>releaseSpan\<close> resets it, which clears \<open>ended\<close> (and the end time). After that
  \<^verbatim>\<open>SetAttribute\<close>, \<^verbatim>\<open>SetStatus\<close> and \<^verbatim>\<open>RecordError\<close> change the span again and a
  second \<^verbatim>\<open>End\<close> stamps a new end time; the exporter still receives the span once.
\<close>

theorem End_does_not_freeze_exported_span:
  "sampled (heap ex_started 0)
   \<and> map fst (exporter_log (run [CallEnd 9 0] ex_started)) = [0]
   \<and> \<not> ended (heap (run [CallEnd 9 0] ex_started) 0)
   \<and> endTime (heap (run [CallEnd 9 0] ex_started) 0) = 0
   \<and> attributes (heap (run [CallEnd 9 0] ex_started) 0) = []
   \<and> attributes (heap (run [CallEnd 9 0, CallSetAttribute ''k'' (AnyInt 1) 0] ex_started) 0)
        = [\<lparr>Key = ''k'', Value = AnyInt 1\<rparr>]
   \<and> status (heap (run [CallEnd 9 0] ex_started) 0) = StatusUnset
   \<and> status (heap (run [CallEnd 9 0, CallSetStatus StatusError ''late'' 0] ex_started) 0)
        = StatusError
   \<and> length (events (heap (run [CallEnd 9 0, CallRecordError (Some ''late'') 10 0]
        ex_started) 0)) = 1
   \<and> endTime (heap (run [CallEnd 9 0, CallEnd 11 0] ex_started) 0) = 11
   \<and> map fst (exporter_log (run [CallEnd 9 0, CallEnd 11 0] ex_started)) = [0]"
  by code_simp

end
